theory Spec2Isabelle
  imports Main
begin

section \<open>Route-to-asset resolution (packages/core/src/utils/asset-extract.ts)\<close>

text \<open>
  A shallow embedding of the asset resolver of \<^verbatim>\<open>asset-extract.ts\<close>:
  \<^verbatim>\<open>hasExtension\<close>, \<^verbatim>\<open>filesFromChunks\<close>, \<^verbatim>\<open>addById\<close>,
  \<^verbatim>\<open>prependForwardSlash\<close>, \<^verbatim>\<open>extractFiles\<close>, \<^verbatim>\<open>getCssFileContent\<close> and
  \<^verbatim>\<open>extractStylesWithContent\<close>. An optional field (\<^verbatim>\<open>files?: string[]\<close>) is an
  \<open>option\<close>, with \<open>None\<close> for \<^verbatim>\<open>undefined\<close>; a mutable array or \<^verbatim>\<open>Set\<close> that a
  function updates is passed in and returned.
\<close>

subsection \<open>Data model\<close>

text \<open>
  A webpack id is \<^verbatim>\<open>string | number\<close>. The two alternatives are never equal under
  \<^verbatim>\<open>===\<close>, under \<^verbatim>\<open>Array.prototype.indexOf\<close> or as members of a \<^verbatim>\<open>Set\<close>, so
  they are the two constructors of a datatype. Numeric ids are integers.
\<close>

datatype WebpackId = Str string | Num int

record Chunk =
  names :: "string list option"
  chunkId :: "WebpackId option"
  files :: "string list option"
  parents :: "WebpackId list option"
  children :: "WebpackId list option"
  reasons :: "string list option"
  reasonsStr :: "string option"
  reasonModules :: "WebpackId list option"

record ChunksMap =
  assetsByChunkName :: "(string \<rightharpoonup> string list) option"
  chunks :: "Chunk list"

record PositionedFiles =
  files_p :: "string list"

record RouteObject =
  webpack :: "WebpackId option"
  module :: "string option"

record LazyRouteMatch =
  route :: RouteObject

subsection \<open>String and array primitives of the language\<close>

text \<open>\<^verbatim>\<open>s.startsWith(p)\<close> and \<^verbatim>\<open>s.endsWith(e)\<close>.\<close>

definition startsWith :: "string \<Rightarrow> string \<Rightarrow> bool" where
  "startsWith s p = (take (length p) s = p)"

definition endsWith :: "string \<Rightarrow> string \<Rightarrow> bool" where
  "endsWith s e = (length e \<le> length s \<and> drop (length s - length e) s = e)"

text \<open>
  \<^verbatim>\<open>s.indexOf(t)\<close> on strings: the least position at which \<open>t\<close> occurs in \<open>s\<close>,
  or \<open>-1\<close>. The empty string occurs at position 0.
\<close>

fun stringIndexOf :: "string \<Rightarrow> string \<Rightarrow> int" where
  "stringIndexOf [] t = (if t = [] then 0 else - 1)"
| "stringIndexOf (c # cs) t =
     (if startsWith (c # cs) t then 0
      else (let i = stringIndexOf cs t in if i = - 1 then - 1 else i + 1))"

text \<open>
  \<^verbatim>\<open>xs.indexOf(x)\<close> on arrays: the least index holding a value strictly equal to
  \<open>x\<close>, or \<open>-1\<close>.
\<close>

fun arrayIndexOf :: "'a list \<Rightarrow> 'a \<Rightarrow> int" where
  "arrayIndexOf [] x = - 1"
| "arrayIndexOf (y # ys) x =
     (if y = x then 0
      else (let i = arrayIndexOf ys x in if i = - 1 then - 1 else i + 1))"

text \<open>
  The optional chain \<^verbatim>\<open>v?.indexOf?.(x)\<close>: \<^verbatim>\<open>undefined\<close> (\<open>None\<close>) when \<open>v\<close> is
  absent. The source compares the result with \<^verbatim>\<open>!== -1\<close>; \<^verbatim>\<open>undefined !== -1\<close>
  is true.
\<close>

definition optStringIndexOf :: "string option \<Rightarrow> string \<Rightarrow> int option" where
  "optStringIndexOf v x = (case v of None \<Rightarrow> None | Some s \<Rightarrow> Some (stringIndexOf s x))"

definition optArrayIndexOf :: "'a list option \<Rightarrow> 'a \<Rightarrow> int option" where
  "optArrayIndexOf v x = (case v of None \<Rightarrow> None | Some xs \<Rightarrow> Some (arrayIndexOf xs x))"

text \<open>
  \<^verbatim>\<open>[...new Set(xs)]\<close>: a \<^verbatim>\<open>Set\<close> keeps insertion order and ignores the insertion
  of a member it already has.
\<close>

definition setAdd :: "'a list \<Rightarrow> 'a \<Rightarrow> 'a list" where
  "setAdd acc x = (if x \<in> set acc then acc else acc @ [x])"

definition newSet :: "'a list \<Rightarrow> 'a list" where
  "newSet xs = foldl setAdd [] xs"

subsection \<open>hasExtension and filesFromChunks\<close>

text \<open>
  \<^verbatim>\<open>hasExtension\<close> calls \<^verbatim>\<open>parse\<close> of the platform's \<^verbatim>\<open>node:url\<close>, which is not
  code of this repository. It is the parameter \<open>pathname\<close>: the \<^verbatim>\<open>pathname\<close> field of
  the parsed URL, \<open>None\<close> when that field is \<^verbatim>\<open>null\<close> or \<^verbatim>\<open>parse\<close> throws (both
  make \<^verbatim>\<open>hasExtension\<close> falsy).
\<close>

definition hasExtension :: "(string \<Rightarrow> string option) \<Rightarrow> string \<Rightarrow> string \<Rightarrow> bool" where
  "hasExtension pathname url ext =
     (case pathname url of None \<Rightarrow> False | Some p \<Rightarrow> endsWith p ext)"

text \<open>
  For a URL that is a plain relative reference (letters, digits, \<^verbatim>\<open>.\<close>, \<^verbatim>\<open>-\<close>,
  \<^verbatim>\<open>_\<close> and \<^verbatim>\<open>/\<close>, with an optional query or fragment) \<^verbatim>\<open>parse\<close> returns as
  pathname the text before the first \<^verbatim>\<open>?\<close> or \<^verbatim>\<open>#\<close>, and \<^verbatim>\<open>null\<close> when that
  text is empty. The concrete scenarios are evaluated with this pathname.
\<close>

definition plainPathname :: "string \<Rightarrow> string option" where
  "plainPathname url =
     (let p = takeWhile (\<lambda>c. c \<noteq> CHR ''?'' \<and> c \<noteq> CHR ''#'') url
      in if p = [] then None else Some p)"

definition filesFromChunks ::
  "(string \<Rightarrow> string option) \<Rightarrow> Chunk list \<Rightarrow> string \<Rightarrow> string list" where
  "filesFromChunks pathname cs ext =
     concat (map (\<lambda>chunk. filter (\<lambda>file. hasExtension pathname file ext)
                            (case files chunk of None \<Rightarrow> [] | Some fs \<Rightarrow> fs)) cs)"

subsection \<open>prependForwardSlash\<close>

definition prependForwardSlash :: "string \<Rightarrow> string" where
  "prependForwardSlash file =
     (if startsWith file ''http'' then file
      else if startsWith file ''/'' then file else ''/'' @ file)"

subsection \<open>addById\<close>

text \<open>
  \<^verbatim>\<open>addById\<close> pushes onto \<^verbatim>\<open>positionedFiles\<close> and adds to the \<^verbatim>\<open>Set\<close>
  \<^verbatim>\<open>extractedAssets\<close>; the model returns both. \<open>forEachChild\<close> is the
  \<^verbatim>\<open>(idChunk.children ?? []).forEach((childId) => ...)\<close> loop of its body: it runs
  the callback on each child in turn, on the arrays as the earlier children left them.
\<close>

function addById ::
  "(string \<Rightarrow> string option) \<Rightarrow> WebpackId \<Rightarrow> ChunksMap \<Rightarrow> PositionedFiles list \<Rightarrow> string
     \<Rightarrow> WebpackId set \<Rightarrow> PositionedFiles list \<times> WebpackId set"
and forEachChild ::
  "(string \<Rightarrow> string option) \<Rightarrow> WebpackId list \<Rightarrow> WebpackId \<Rightarrow> ChunksMap
     \<Rightarrow> PositionedFiles list \<Rightarrow> string \<Rightarrow> WebpackId set
     \<Rightarrow> PositionedFiles list \<times> WebpackId set"
where
  "addById pathname webpackId chunksMap positionedFiles ext extractedAssets =
     (if webpackId \<in> extractedAssets then (positionedFiles, extractedAssets)
      else (case find (\<lambda>chunk. chunkId chunk = Some webpackId) (chunks chunksMap) of
              None \<Rightarrow> (positionedFiles, insert webpackId extractedAssets)
            | Some idChunk \<Rightarrow>
                forEachChild pathname (case children idChunk of None \<Rightarrow> [] | Some cs \<Rightarrow> cs)
                  webpackId chunksMap
                  (positionedFiles @ [\<lparr>files_p = filesFromChunks pathname [idChunk] ext\<rparr>])
                  ext (insert webpackId extractedAssets)))"
| "forEachChild pathname [] webpackId chunksMap positionedFiles ext extractedAssets =
     (positionedFiles, extractedAssets)"
| "forEachChild pathname (childId # rest) webpackId chunksMap positionedFiles ext extractedAssets =
     (case (if childId \<noteq> webpackId
            then addById pathname childId chunksMap positionedFiles ext extractedAssets
            else (positionedFiles, extractedAssets)) of
        (positionedFiles', extractedAssets') \<Rightarrow>
          forEachChild pathname rest webpackId chunksMap positionedFiles' ext extractedAssets')"
  by pat_completeness auto

text \<open>
  The ids of the chunks of a map, in order: the measure of the recursion is the number
  of them that \<^verbatim>\<open>extractedAssets\<close> does not hold yet.
\<close>

definition chunkIds :: "ChunksMap \<Rightarrow> WebpackId list" where
  "chunkIds chunksMap = List.map_filter chunkId (chunks chunksMap)"

lemma find_chunkIds:
  "find (\<lambda>chunk. chunkId chunk = Some w) (chunks cm) = Some c \<Longrightarrow> w \<in> set (chunkIds cm)"
proof -
  assume "find (\<lambda>chunk. chunkId chunk = Some w) (chunks cm) = Some c"
  then have "c \<in> set (chunks cm)" and "chunkId c = Some w"
    by (auto simp: find_Some_iff)
  then have "the (chunkId c) \<in> set (chunkIds cm)"
    unfolding chunkIds_def List.map_filter_def by (simp del: the_def) force
  with \<open>chunkId c = Some w\<close> show ?thesis by simp
qed

lemma visited_grows_partial:
  "addById_forEachChild_dom (Inl (pn, w, cm, pf, ext, ea))
     \<Longrightarrow> ea \<subseteq> snd (addById pn w cm pf ext ea)"
  "addById_forEachChild_dom (Inr (pn, ks, w, cm, pf, ext, ea))
     \<Longrightarrow> ea \<subseteq> snd (forEachChild pn ks w cm pf ext ea)"
proof (induction pn w cm pf ext ea and pn ks w cm pf ext ea rule: addById_forEachChild.pinduct)
  case (1 pn w cm pf ext ea)
  then show ?case
    by (auto simp: addById.psimps split: option.splits)
next
  case (2 pn w cm pf ext ea)
  then show ?case by (simp add: forEachChild.psimps)
next
  case (3 pn k ks w cm pf ext ea)
  show ?case
  proof (cases "k = w")
    case True
    with 3 show ?thesis by (simp add: forEachChild.psimps)
  next
    case False
    obtain pf' ea' where r: "addById pn k cm pf ext ea = (pf', ea')"
      by (cases "addById pn k cm pf ext ea")
    from 3(2) False r have "ea \<subseteq> ea'" by simp
    moreover from 3(3) [of pf' ea'] False r
    have "ea' \<subseteq> snd (forEachChild pn ks w cm pf' ext ea')" by simp
    ultimately show ?thesis
      using 3(1) False r by (simp add: forEachChild.psimps)
  qed
qed

lemma addById_forEachChild_total: "All addById_forEachChild_dom"
proof (rule "addById_forEachChild.termination")
  let ?m = "\<lambda>x. case x of
      Inl (pn, w, cm, pf, ext, ea) \<Rightarrow> (card (set (chunkIds cm) - ea), 0::nat)
    | Inr (pn, ks, w, cm, pf, ext, ea) \<Rightarrow> (card (set (chunkIds cm) - ea), Suc (length ks))"
  let ?R = "inv_image (less_than <*lex*> less_than) ?m"
  show "wf ?R" by (intro wf_inv_image wf_lex_prod wf_less_than)
  fix pn :: "string \<Rightarrow> string option" and w :: WebpackId and cm :: ChunksMap
    and pf :: "PositionedFiles list" and ext :: string and ea :: "WebpackId set"
  {
    fix c :: Chunk
    assume "w \<notin> ea" and f: "find (\<lambda>chunk. chunkId chunk = Some w) (chunks cm) = Some c"
    have "w \<in> set (chunkIds cm)" using f by (rule find_chunkIds)
    with \<open>w \<notin> ea\<close> have "set (chunkIds cm) - insert w ea \<subset> set (chunkIds cm) - ea"
      by auto
    then have "card (set (chunkIds cm) - insert w ea) < card (set (chunkIds cm) - ea)"
      by (intro psubset_card_mono) auto
    then show "(Inr (pn, case children c of None \<Rightarrow> [] | Some cs \<Rightarrow> cs, w, cm,
                  pf @ [\<lparr>files_p = filesFromChunks pn [c] ext\<rparr>], ext, insert w ea),
                Inl (pn, w, cm, pf, ext, ea)) \<in> ?R"
      by simp
  }
  fix k :: WebpackId and ks :: "WebpackId list"
  show "(Inl (pn, k, cm, pf, ext, ea), Inr (pn, k # ks, w, cm, pf, ext, ea)) \<in> ?R"
    by simp
  fix pf' :: "PositionedFiles list" and ea' :: "WebpackId set"
  assume r: "(pf', ea') = (if k \<noteq> w then addById pn k cm pf ext ea else (pf, ea))"
    and d: "k \<noteq> w \<Longrightarrow> addById_forEachChild_dom (Inl (pn, k, cm, pf, ext, ea))"
  have "ea \<subseteq> ea'"
  proof (cases "k = w")
    case True
    with r show ?thesis by simp
  next
    case False
    with r have "ea' = snd (addById pn k cm pf ext ea)" by (metis snd_conv)
    with visited_grows_partial(1) [OF d [OF False]] show ?thesis by simp
  qed
  then have "card (set (chunkIds cm) - ea') \<le> card (set (chunkIds cm) - ea)"
    by (intro card_mono) auto
  then show "(Inr (pn, ks, w, cm, pf', ext, ea'), Inr (pn, k # ks, w, cm, pf, ext, ea)) \<in> ?R"
    by auto
qed

termination addById
  using addById_forEachChild_total by blast

declare addById.simps [simp del]

subsection \<open>extractFiles\<close>

text \<open>\<^verbatim>\<open>chunksMap.assetsByChunkName?.main ?? []\<close>\<close>

definition mainAssets :: "ChunksMap \<Rightarrow> string list" where
  "mainAssets chunksMap =
     (case assetsByChunkName chunksMap of
        None \<Rightarrow> []
      | Some byName \<Rightarrow> (case byName ''main'' of None \<Rightarrow> [] | Some fs \<Rightarrow> fs))"

definition currentProjectChunks :: "ChunksMap \<Rightarrow> Chunk list" where
  "currentProjectChunks chunksMap =
     filter (\<lambda>chunk. optStringIndexOf (reasonsStr chunk) ''@currentProject'' \<noteq> Some (- 1)
                     \<or> optStringIndexOf (reasonsStr chunk) ''@reactpwa'' \<noteq> Some (- 1)
                     \<or> reasonsStr chunk = Some [])
            (chunks chunksMap)"

text \<open>
  The groups that come before the routes: the files of \<^verbatim>\<open>main\<close>, then the files of
  \<^verbatim>\<open>currentProjectChunks\<close>; each is pushed only when it is not empty.
\<close>

definition initialPositionedFiles ::
  "(string \<Rightarrow> string option) \<Rightarrow> ChunksMap \<Rightarrow> string \<Rightarrow> PositionedFiles list" where
  "initialPositionedFiles pathname chunksMap ext =
     (let filesFromMain = filter (\<lambda>file. hasExtension pathname file ext) (mainAssets chunksMap);
          positionedFiles = (if filesFromMain \<noteq> [] then [\<lparr>files_p = filesFromMain\<rparr>] else []);
          filesFromCurrentProjectChunks =
            filesFromChunks pathname (currentProjectChunks chunksMap) ext
      in if filesFromCurrentProjectChunks \<noteq> []
         then positionedFiles @ [\<lparr>files_p = filesFromCurrentProjectChunks\<rparr>]
         else positionedFiles)"

text \<open>
  \<^verbatim>\<open>chunks.filter(...).forEach((chunk) => positionedFiles.push({files:
  filesFromChunks([chunk], ext)}))\<close>, as the module-name and the numeric-id steps do.
\<close>

definition pushEachChunk ::
  "(string \<Rightarrow> string option) \<Rightarrow> Chunk list \<Rightarrow> string \<Rightarrow> PositionedFiles list
     \<Rightarrow> PositionedFiles list" where
  "pushEachChunk pathname cs ext positionedFiles =
     positionedFiles @ map (\<lambda>chunk. \<lparr>files_p = filesFromChunks pathname [chunk] ext\<rparr>) cs"

definition moduleChunks :: "string \<Rightarrow> ChunksMap \<Rightarrow> Chunk list" where
  "moduleChunks m chunksMap =
     filter (\<lambda>chunk. optStringIndexOf (reasonsStr chunk) (''||'' @ m @ ''||'') \<noteq> Some (- 1))
            (chunks chunksMap)"

definition reasonModuleChunks :: "WebpackId \<Rightarrow> ChunksMap \<Rightarrow> Chunk list" where
  "reasonModuleChunks webpackId chunksMap =
     filter (\<lambda>chunk. optArrayIndexOf (reasonModules chunk) webpackId \<noteq> Some (- 1))
            (chunks chunksMap)"

text \<open>
  \<^verbatim>\<open>webpackId.replace(/[./]/gi, '_').replace(/^_+|_+$/g, '')\<close>: every \<^verbatim>\<open>.\<close> and
  every \<^verbatim>\<open>/\<close> becomes \<^verbatim>\<open>_\<close>, then the leading and the trailing run of \<^verbatim>\<open>_\<close>
  are removed.
\<close>

definition replaceDotSlash :: "string \<Rightarrow> string" where
  "replaceDotSlash s = map (\<lambda>c. if c = CHR ''.'' \<or> c = CHR ''/'' then CHR ''_'' else c) s"

definition trimUnderscores :: "string \<Rightarrow> string" where
  "trimUnderscores s =
     rev (dropWhile (\<lambda>c. c = CHR ''_'') (rev (dropWhile (\<lambda>c. c = CHR ''_'') s)))"

definition canonicalWebpackId :: "string \<Rightarrow> string" where
  "canonicalWebpackId s = trimUnderscores (replaceDotSlash s)"

text \<open>
  The three steps of the callback of \<^verbatim>\<open>matchedRoutes.forEach\<close>. A condition
  \<^verbatim>\<open>if (v)\<close> or \<^verbatim>\<open>v && ...\<close> is false for an absent value, for the empty string
  and for the number 0.
\<close>

definition moduleStep ::
  "(string \<Rightarrow> string option) \<Rightarrow> ChunksMap \<Rightarrow> string \<Rightarrow> LazyRouteMatch
     \<Rightarrow> PositionedFiles list \<Rightarrow> PositionedFiles list" where
  "moduleStep pathname chunksMap ext matchedRoute positionedFiles =
     (case module (route matchedRoute) of
        None \<Rightarrow> positionedFiles
      | Some m \<Rightarrow>
          if m = [] then positionedFiles
          else pushEachChunk pathname (moduleChunks m chunksMap) ext positionedFiles)"

definition numberStep ::
  "(string \<Rightarrow> string option) \<Rightarrow> ChunksMap \<Rightarrow> string \<Rightarrow> LazyRouteMatch
     \<Rightarrow> PositionedFiles list \<Rightarrow> PositionedFiles list" where
  "numberStep pathname chunksMap ext matchedRoute positionedFiles =
     (case webpack (route matchedRoute) of
        Some (Num n) \<Rightarrow>
          if n = 0 then positionedFiles
          else pushEachChunk pathname (reasonModuleChunks (Num n) chunksMap) ext positionedFiles
      | _ \<Rightarrow> positionedFiles)"

definition stringStep ::
  "(string \<Rightarrow> string option) \<Rightarrow> ChunksMap \<Rightarrow> string \<Rightarrow> LazyRouteMatch
     \<Rightarrow> PositionedFiles list \<Rightarrow> WebpackId set \<Rightarrow> PositionedFiles list \<times> WebpackId set" where
  "stringStep pathname chunksMap ext matchedRoute positionedFiles extractedAssets =
     (case webpack (route matchedRoute) of
        Some (Str s) \<Rightarrow>
          if s = [] then (positionedFiles, extractedAssets)
          else addById pathname (Str (canonicalWebpackId s)) chunksMap positionedFiles ext
                 extractedAssets
      | _ \<Rightarrow> (positionedFiles, extractedAssets))"

fun matchedRouteStep ::
  "(string \<Rightarrow> string option) \<Rightarrow> ChunksMap \<Rightarrow> string
     \<Rightarrow> PositionedFiles list \<times> WebpackId set \<Rightarrow> LazyRouteMatch
     \<Rightarrow> PositionedFiles list \<times> WebpackId set" where
  "matchedRouteStep pathname chunksMap ext (positionedFiles, extractedAssets) matchedRoute =
     stringStep pathname chunksMap ext matchedRoute
       (numberStep pathname chunksMap ext matchedRoute
          (moduleStep pathname chunksMap ext matchedRoute positionedFiles))
       extractedAssets"

text \<open>
  \<^verbatim>\<open>positionedFiles\<close> when the loop over the routes ends; \<^verbatim>\<open>extractedAssets\<close> is
  one \<^verbatim>\<open>Set\<close> for all the routes, empty at the start.
\<close>

definition collectPositionedFiles ::
  "(string \<Rightarrow> string option) \<Rightarrow> LazyRouteMatch list \<Rightarrow> ChunksMap \<Rightarrow> string
     \<Rightarrow> PositionedFiles list" where
  "collectPositionedFiles pathname routes chunksMap ext =
     fst (foldl (matchedRouteStep pathname chunksMap ext)
            (initialPositionedFiles pathname chunksMap ext, {}) routes)"

text \<open>\<^verbatim>\<open>positionedFiles.map((p) => p.files).flat()\<close>\<close>

definition flatFiles :: "PositionedFiles list \<Rightarrow> string list" where
  "flatFiles positionedFiles = concat (map files_p positionedFiles)"

text \<open>
  \<^verbatim>\<open>extractFiles\<close>. \<^verbatim>\<open>matchedRoutes\<close> is \<open>None\<close> when the caller passes no array
  (\<^verbatim>\<open>if (!matchedRoutes) return []\<close>; an empty array is truthy).
\<close>

definition extractFiles ::
  "(string \<Rightarrow> string option) \<Rightarrow> LazyRouteMatch list option \<Rightarrow> ChunksMap \<Rightarrow> string
     \<Rightarrow> string list" where
  "extractFiles pathname matchedRoutes chunksMap ext =
     (case matchedRoutes of
        None \<Rightarrow> []
      | Some routes \<Rightarrow>
          map prependForwardSlash
            (newSet (flatFiles (collectPositionedFiles pathname routes chunksMap ext))))"

definition extractStyles ::
  "(string \<Rightarrow> string option) \<Rightarrow> LazyRouteMatch list option \<Rightarrow> ChunksMap \<Rightarrow> string list" where
  "extractStyles pathname matchedRoutes chunksMap =
     extractFiles pathname matchedRoutes chunksMap ''.css''"

definition extractScripts ::
  "(string \<Rightarrow> string option) \<Rightarrow> LazyRouteMatch list option \<Rightarrow> ChunksMap \<Rightarrow> string list" where
  "extractScripts pathname matchedRoutes chunksMap =
     extractFiles pathname matchedRoutes chunksMap ''.js''"

subsection \<open>getCssFileContent and extractStylesWithContent\<close>

text \<open>
  \<^verbatim>\<open>existsSync\<close> and \<^verbatim>\<open>readFileSync\<close> are the platform's. They are the parameter
  \<open>disk\<close>: for a css file, the content of the file at
  \<^verbatim>\<open>join(__dirname, 'build', cssFile)\<close>, or \<open>None\<close> when no file exists there. The
  one error of the source is \<^verbatim>\<open>new Error('CSS file not found!')\<close>.
\<close>

datatype Error = CssFileNotFound

definition getCssFileContent :: "(string \<Rightarrow> string option) \<Rightarrow> string \<Rightarrow> Error + string" where
  "getCssFileContent disk cssFile =
     (case disk cssFile of
        Some cssContent \<Rightarrow> Inr cssContent
      | None \<Rightarrow> Inl CssFileNotFound)"

record StyleContent =
  href :: string
  content :: string

text \<open>\<^verbatim>\<open>const cssContentMap = new Map()\<close>, the cache of the module.\<close>

definition cssContentMap_new :: "string \<rightharpoonup> string" where
  "cssContentMap_new = Map.empty"

text \<open>
  The callback that \<^verbatim>\<open>extractStylesWithContent\<close> maps over the css files. It is an
  \<^verbatim>\<open>async\<close> function: its promise is fulfilled with a pair (\<open>Inr\<close>) or rejected with
  the error that \<^verbatim>\<open>getCssFileContent\<close> throws (\<open>Inl\<close>). \<^verbatim>\<open>cssFiles.map\<close> starts
  every callback before any of them resumes after its \<^verbatim>\<open>await\<close>, so each one looks
  its file up in the cache as it was when the call began.
\<close>

definition styleCallback ::
  "(string \<Rightarrow> string option) \<Rightarrow> (string \<rightharpoonup> string) \<Rightarrow> string \<Rightarrow> Error + StyleContent" where
  "styleCallback disk cssContentMap cssFile =
     (case cssContentMap cssFile of
        Some cached \<Rightarrow> Inr \<lparr>href = cssFile, content = cached\<rparr>
      | None \<Rightarrow>
          (case getCssFileContent disk cssFile of
             Inl e \<Rightarrow> Inl e
           | Inr cssContent \<Rightarrow> Inr \<lparr>href = cssFile, content = cssContent\<rparr>))"

text \<open>
  \<^verbatim>\<open>cssContentMap.set(cssFile, cssContent)\<close>, which a callback reaches when its file
  was not in the cache and was read.
\<close>

definition cacheSet ::
  "(string \<Rightarrow> string option) \<Rightarrow> (string \<rightharpoonup> string) \<Rightarrow> (string \<rightharpoonup> string) \<Rightarrow> string
     \<Rightarrow> (string \<rightharpoonup> string)" where
  "cacheSet disk cssContentMap cache cssFile =
     (case cssContentMap cssFile of
        Some cached \<Rightarrow> cache
      | None \<Rightarrow>
          (case getCssFileContent disk cssFile of
             Inl e \<Rightarrow> cache
           | Inr cssContent \<Rightarrow> cache(cssFile \<mapsto> cssContent)))"

text \<open>
  \<^verbatim>\<open>Promise.all\<close>: rejected with the error of the first promise that is rejected,
  fulfilled with all the values when none is.
\<close>

fun promiseAll :: "(Error + 'a) list \<Rightarrow> Error + 'a list" where
  "promiseAll [] = Inr []"
| "promiseAll (Inl e # ps) = Inl e"
| "promiseAll (Inr v # ps) = (case promiseAll ps of Inl e \<Rightarrow> Inl e | Inr vs \<Rightarrow> Inr (v # vs))"

text \<open>
  \<^verbatim>\<open>extractStylesWithContent\<close>: what its promise settles to, and the cache once every
  callback has run.
\<close>

definition extractStylesWithContent ::
  "(string \<Rightarrow> string option) \<Rightarrow> (string \<Rightarrow> string option) \<Rightarrow> (string \<rightharpoonup> string)
     \<Rightarrow> LazyRouteMatch list option \<Rightarrow> ChunksMap
     \<Rightarrow> (Error + StyleContent list) \<times> (string \<rightharpoonup> string)" where
  "extractStylesWithContent pathname disk cssContentMap matchedRoutes chunksMap =
     (let cssFiles = extractStyles pathname matchedRoutes chunksMap
      in (promiseAll (map (styleCallback disk cssContentMap) cssFiles),
          foldl (cacheSet disk cssContentMap) cssContentMap cssFiles))"

subsection \<open>The canonical chunk id as the specification words it\<close>

text \<open>
  The specification: "replace non-alphanumeric runs with underscore, trim
  leading/trailing underscores". \<open>replaceRuns_spec\<close> and \<open>canonicalize_spec\<close> follow
  these words, to be compared with \<open>canonicalWebpackId\<close> of the source: a run of
  characters that are not letters or digits leaves one underscore, written when its
  last character is read.
\<close>

definition isAlphanumeric :: "char \<Rightarrow> bool" where
  "isAlphanumeric c =
     (let n = (of_char c :: nat)
      in (48 \<le> n \<and> n \<le> 57) \<or> (65 \<le> n \<and> n \<le> 90) \<or> (97 \<le> n \<and> n \<le> 122))"

fun replaceRuns_spec :: "string \<Rightarrow> string" where
  "replaceRuns_spec [] = []"
| "replaceRuns_spec [c] = (if isAlphanumeric c then [c] else [CHR ''_''])"
| "replaceRuns_spec (c # d # cs) =
     (if isAlphanumeric c then c # replaceRuns_spec (d # cs)
      else if isAlphanumeric d then CHR ''_'' # replaceRuns_spec (d # cs)
      else replaceRuns_spec (d # cs))"

definition canonicalize_spec :: "string \<Rightarrow> string" where
  "canonicalize_spec s = trimUnderscores (replaceRuns_spec s)"

text \<open>
  What one call of \<open>addById\<close> does to the arrays: the visited set grows,
  \<^verbatim>\<open>positionedFiles\<close> is extended at its end, and there is exactly one push for
  every chunk id that the call adds to the set.
\<close>

definition addsOncePerChunk ::
  "ChunksMap \<Rightarrow> PositionedFiles list \<Rightarrow> WebpackId set
     \<Rightarrow> PositionedFiles list \<times> WebpackId set \<Rightarrow> bool" where
  "addsOncePerChunk chunksMap positionedFiles extractedAssets result =
     (extractedAssets \<subseteq> snd result
      \<and> take (length positionedFiles) (fst result) = positionedFiles
      \<and> length (fst result)
          = length positionedFiles
            + card ((snd result - extractedAssets) \<inter> set (chunkIds chunksMap)))"

subsection \<open>The scenarios of the specification\<close>

text \<open>
  Scenario A: one chunk \<^verbatim>\<open>{id: 1, names: ["main"], files: ["main.js","main.css"]}\<close>
  and \<^verbatim>\<open>assetsByChunkName: {main: ["main.js","main.css"]}\<close>.
\<close>

definition scenarioA_chunk :: Chunk where
  "scenarioA_chunk =
     \<lparr>names = Some [''main''], chunkId = Some (Num 1), files = Some [''main.js'', ''main.css''],
      parents = None, children = None, reasons = None, reasonsStr = None,
      reasonModules = None\<rparr>"

definition scenarioA_map :: ChunksMap where
  "scenarioA_map =
     \<lparr>assetsByChunkName = Some [''main'' \<mapsto> [''main.js'', ''main.css'']],
      chunks = [scenarioA_chunk]\<rparr>"

text \<open>
  Scenario B: \<^verbatim>\<open>A = {id: "home_module", reasonsStr: "", files: ["a.css"], children: []}\<close>,
  \<^verbatim>\<open>B = {id: 2, children: ["home_module"], files: ["b.css"], reasonsStr: ""}\<close> and the
  route \<^verbatim>\<open>{webpack: "home.module"}\<close>.
\<close>

definition scenarioB_A :: Chunk where
  "scenarioB_A =
     \<lparr>names = None, chunkId = Some (Str ''home_module''), files = Some [''a.css''],
      parents = None, children = Some [], reasons = None, reasonsStr = Some [],
      reasonModules = None\<rparr>"

definition scenarioB_B :: Chunk where
  "scenarioB_B =
     \<lparr>names = None, chunkId = Some (Num 2), files = Some [''b.css''],
      parents = None, children = Some [Str ''home_module''], reasons = None,
      reasonsStr = Some [], reasonModules = None\<rparr>"

definition scenarioB_map :: ChunksMap where
  "scenarioB_map = \<lparr>assetsByChunkName = None, chunks = [scenarioB_A, scenarioB_B]\<rparr>"

definition scenarioB_route :: LazyRouteMatch where
  "scenarioB_route = \<lparr>route = \<lparr>webpack = Some (Str ''home.module''), module = None\<rparr>\<rparr>"

text \<open>
  Scenario C: the single chunk \<^verbatim>\<open>C = {id: 5, children: [5], files: ["c.js"]}\<close> and a
  route whose string id is \<^verbatim>\<open>"5"\<close>.
\<close>

definition scenarioC_chunk :: Chunk where
  "scenarioC_chunk =
     \<lparr>names = None, chunkId = Some (Num 5), files = Some [''c.js''],
      parents = None, children = Some [Num 5], reasons = None, reasonsStr = None,
      reasonModules = None\<rparr>"

definition scenarioC_map :: ChunksMap where
  "scenarioC_map = \<lparr>assetsByChunkName = None, chunks = [scenarioC_chunk]\<rparr>"

definition scenarioC_route :: LazyRouteMatch where
  "scenarioC_route = \<lparr>route = \<lparr>webpack = Some (Str ''5''), module = None\<rparr>\<rparr>"

text \<open>
  Scenario D: a chunk with \<^verbatim>\<open>reasonsStr = "||Header||Footer||"\<close> and nothing else.
\<close>

definition scenarioD_chunk :: Chunk where
  "scenarioD_chunk =
     \<lparr>names = None, chunkId = None, files = None, parents = None, children = None,
      reasons = None, reasonsStr = Some ''||Header||Footer||'', reasonModules = None\<rparr>"

definition scenarioD_map :: ChunksMap where
  "scenarioD_map = \<lparr>assetsByChunkName = None, chunks = [scenarioD_chunk]\<rparr>"

text \<open>
  \<^verbatim>\<open>reasons.join('||')\<close>, which \<^verbatim>\<open>extractChunksMap\<close> stores as \<^verbatim>\<open>reasonsStr\<close>:
  the separator stands between two reasons, and not before the first or after the last.
\<close>

fun joinReasons :: "string list \<Rightarrow> string" where
  "joinReasons [] = []"
| "joinReasons [r] = r"
| "joinReasons (r # rs) = r @ ''||'' @ joinReasons rs"

text \<open>
  A chunk as \<^verbatim>\<open>extractChunksMap\<close> returns it for the reasons \<^verbatim>\<open>Header\<close> and
  \<^verbatim>\<open>Footer\<close>, and the map that holds it.
\<close>

definition headerFooter_chunk :: Chunk where
  "headerFooter_chunk =
     \<lparr>names = Some [], chunkId = Some (Num 3), files = Some [''header.js''],
      parents = Some [], children = Some [], reasons = Some [''Header'', ''Footer''],
      reasonsStr = Some (joinReasons [''Header'', ''Footer'']), reasonModules = Some []\<rparr>"

definition headerFooter_map :: ChunksMap where
  "headerFooter_map = \<lparr>assetsByChunkName = Some Map.empty, chunks = [headerFooter_chunk]\<rparr>"

text \<open>
  A map and a disk for the style contents: one chunk with the files \<^verbatim>\<open>a.css\<close> and
  \<^verbatim>\<open>b.css\<close>, of which only \<^verbatim>\<open>/a.css\<close> exists in the build directory.
\<close>

definition styles_chunk :: Chunk where
  "styles_chunk =
     \<lparr>names = None, chunkId = Some (Num 1), files = Some [''a.css'', ''b.css''],
      parents = None, children = None, reasons = Some [], reasonsStr = Some [],
      reasonModules = Some []\<rparr>"

definition styles_map :: ChunksMap where
  "styles_map = \<lparr>assetsByChunkName = None, chunks = [styles_chunk]\<rparr>"

definition styles_disk :: "string \<Rightarrow> string option" where
  "styles_disk cssFile = (if cssFile = ''/a.css'' then Some ''body{}'' else None)"

text \<open>
  A chunk that lists one asset under two spellings, and a chunk that carries no
  \<^verbatim>\<open>reasonsStr\<close>.
\<close>

definition twoSpellings_chunk :: Chunk where
  "twoSpellings_chunk =
     \<lparr>names = None, chunkId = Some (Num 1), files = Some [''a.js'', ''/a.js''],
      parents = None, children = None, reasons = Some [], reasonsStr = Some [],
      reasonModules = Some []\<rparr>"

definition twoSpellings_map :: ChunksMap where
  "twoSpellings_map = \<lparr>assetsByChunkName = None, chunks = [twoSpellings_chunk]\<rparr>"

definition noReasons_chunk :: Chunk where
  "noReasons_chunk =
     \<lparr>names = None, chunkId = Some (Num 7), files = Some [''x.js''],
      parents = None, children = None, reasons = None, reasonsStr = None,
      reasonModules = None\<rparr>"

definition noReasons_map :: ChunksMap where
  "noReasons_map = \<lparr>assetsByChunkName = None, chunks = [noReasons_chunk]\<rparr>"

definition header_route :: LazyRouteMatch where
  "header_route = \<lparr>route = \<lparr>webpack = None, module = Some ''Header''\<rparr>\<rparr>"

section \<open>Lemmas\<close>

subsection \<open>One push for each chunk id that addById visits\<close>

lemma find_None_chunkIds:
  "find (\<lambda>chunk. chunkId chunk = Some w) (chunks cm) = None \<Longrightarrow> w \<notin> set (chunkIds cm)"
  unfolding chunkIds_def List.map_filter_def by (auto simp: find_None_iff)

lemma addsOncePerChunk_refl: "addsOncePerChunk cm pf ea (pf, ea)"
  by (simp add: addsOncePerChunk_def)

lemma addsOncePerChunk_trans:
  assumes "addsOncePerChunk cm pf ea (pf1, ea1)" and "addsOncePerChunk cm pf1 ea1 r"
  shows "addsOncePerChunk cm pf ea r"
proof -
  let ?I = "set (chunkIds cm)"
  from assms have sub: "ea \<subseteq> ea1" "ea1 \<subseteq> snd r"
    by (simp_all add: addsOncePerChunk_def)
  have len: "length pf \<le> length pf1" "length pf1 \<le> length (fst r)"
    using assms by (simp_all add: addsOncePerChunk_def)
  from assms have "take (length pf1) (fst r) = pf1" "take (length pf) pf1 = pf"
    by (simp_all add: addsOncePerChunk_def)
  then have pre: "take (length pf) (fst r) = pf"
    using len by (metis min.absorb2 take_take min.commute)
  have "(snd r - ea) \<inter> ?I = ((ea1 - ea) \<inter> ?I) \<union> ((snd r - ea1) \<inter> ?I)"
    using sub by auto
  moreover have "((ea1 - ea) \<inter> ?I) \<inter> ((snd r - ea1) \<inter> ?I) = {}" by auto
  ultimately have "card ((snd r - ea) \<inter> ?I)
      = card ((ea1 - ea) \<inter> ?I) + card ((snd r - ea1) \<inter> ?I)"
    by (simp add: card_Un_disjoint)
  with assms sub pre show ?thesis
    by (simp add: addsOncePerChunk_def)
qed

lemma addById_forEachChild_once:
  "addsOncePerChunk cm pf ea (addById pn w cm pf ext ea)"
  "addsOncePerChunk cm pf ea (forEachChild pn ks w cm pf ext ea)"
proof (induction pn w cm pf ext ea and pn ks w cm pf ext ea rule: addById_forEachChild.induct)
  case (1 pn w cm pf ext ea)
  show ?case
  proof (cases "w \<in> ea")
    case True
    then show ?thesis by (simp add: addById.simps addsOncePerChunk_refl)
  next
    case False
    show ?thesis
    proof (cases "find (\<lambda>chunk. chunkId chunk = Some w) (chunks cm)")
      case None
      then have "w \<notin> set (chunkIds cm)" by (rule find_None_chunkIds)
      then have "(insert w ea - ea) \<inter> set (chunkIds cm) = {}" by auto
      with False None show ?thesis
        by (simp add: addById.simps addsOncePerChunk_def subset_insertI)
    next
      case (Some c)
      let ?pf1 = "pf @ [\<lparr>files_p = filesFromChunks pn [c] ext\<rparr>]"
      have "w \<in> set (chunkIds cm)" using Some by (rule find_chunkIds)
      with False have "(insert w ea - ea) \<inter> set (chunkIds cm) = {w}" by auto
      then have first: "addsOncePerChunk cm pf ea (?pf1, insert w ea)"
        by (simp add: addsOncePerChunk_def subset_insertI)
      from "1.IH" [OF False Some]
      have "addsOncePerChunk cm ?pf1 (insert w ea)
              (forEachChild pn (case children c of None \<Rightarrow> [] | Some cs \<Rightarrow> cs) w cm ?pf1 ext
                 (insert w ea))" .
      with first have "addsOncePerChunk cm pf ea
              (forEachChild pn (case children c of None \<Rightarrow> [] | Some cs \<Rightarrow> cs) w cm ?pf1 ext
                 (insert w ea))"
        by (rule addsOncePerChunk_trans)
      with False Some show ?thesis by (simp add: addById.simps)
    qed
  qed
next
  case (2 pn w cm pf ext ea)
  show ?case by (simp add: addsOncePerChunk_refl)
next
  case (3 pn k ks w cm pf ext ea)
  obtain pf1 ea1 where r: "(if k \<noteq> w then addById pn k cm pf ext ea else (pf, ea)) = (pf1, ea1)"
    by (cases "if k \<noteq> w then addById pn k cm pf ext ea else (pf, ea)")
  have first: "addsOncePerChunk cm pf ea (pf1, ea1)"
  proof (cases "k = w")
    case True
    with r show ?thesis by (simp add: addsOncePerChunk_refl)
  next
    case False
    with "3.IH"(1) r show ?thesis by simp
  qed
  from "3.IH"(2) [OF r [symmetric]]
  have "addsOncePerChunk cm pf1 ea1 (forEachChild pn ks w cm pf1 ext ea1)" .
  with first have "addsOncePerChunk cm pf ea (forEachChild pn ks w cm pf1 ext ea1)"
    by (rule addsOncePerChunk_trans)
  with r show ?case by simp
qed

subsection \<open>Insertion order of a Set\<close>

lemma set_foldl_setAdd: "set (foldl setAdd acc xs) = set acc \<union> set xs"
  by (induction xs arbitrary: acc) (auto simp: setAdd_def)

lemma distinct_foldl_setAdd: "distinct acc \<Longrightarrow> distinct (foldl setAdd acc xs)"
  by (induction xs arbitrary: acc) (auto simp: setAdd_def)

lemma set_newSet: "set (newSet xs) = set xs"
  by (simp add: newSet_def set_foldl_setAdd)

lemma distinct_newSet: "distinct (newSet xs)"
  by (simp add: newSet_def distinct_foldl_setAdd)

lemma newSet_snoc: "newSet (xs @ [x]) = setAdd (newSet xs) x"
  by (simp add: newSet_def)

lemma map_foldl_setAdd:
  "inj_on f (set acc \<union> set xs)
     \<Longrightarrow> map f (foldl setAdd acc xs) = foldl setAdd (map f acc) (map f xs)"
proof (induction xs arbitrary: acc)
  case Nil
  then show ?case by simp
next
  case (Cons x xs)
  have mem: "f x \<in> f ` set acc \<longleftrightarrow> x \<in> set acc"
    using Cons.prems by (auto simp: inj_on_def)
  have "set (setAdd acc x) \<union> set xs = set acc \<union> set (x # xs)"
    by (auto simp: setAdd_def)
  with Cons.prems have "inj_on f (set (setAdd acc x) \<union> set xs)" by simp
  from Cons.IH [OF this] mem show ?case by (simp add: setAdd_def)
qed

lemma map_newSet: "inj_on f (set xs) \<Longrightarrow> map f (newSet xs) = newSet (map f xs)"
  using map_foldl_setAdd [of f "[]" xs] by (simp add: newSet_def)

lemma arrayIndexOf_bounds: "x \<in> set xs \<Longrightarrow> 0 \<le> arrayIndexOf xs x \<and> arrayIndexOf xs x < int (length xs)"
  by (induction xs) (auto simp: Let_def)

lemma arrayIndexOf_absent: "x \<notin> set xs \<Longrightarrow> arrayIndexOf xs x = - 1"
  by (induction xs) (auto simp: Let_def)

lemma arrayIndexOf_append_mem: "x \<in> set xs \<Longrightarrow> arrayIndexOf (xs @ ys) x = arrayIndexOf xs x"
proof (induction xs)
  case Nil
  then show ?case by simp
next
  case (Cons a xs)
  show ?case
  proof (cases "a = x")
    case True
    then show ?thesis by simp
  next
    case False
    with Cons.prems have "x \<in> set xs" by simp
    with Cons.IH False show ?thesis by (simp add: Let_def)
  qed
qed

lemma arrayIndexOf_snoc_new: "x \<notin> set xs \<Longrightarrow> arrayIndexOf (xs @ [x]) x = int (length xs)"
proof (induction xs)
  case Nil
  then show ?case by simp
next
  case (Cons a xs)
  then have "arrayIndexOf (xs @ [x]) x = int (length xs)" by simp
  with Cons.prems show ?case by (auto simp: Let_def)
qed

lemma newSet_first_seen:
  "i < j \<Longrightarrow> j < length (newSet xs)
     \<Longrightarrow> arrayIndexOf xs (newSet xs ! i) < arrayIndexOf xs (newSet xs ! j)"
proof (induction xs arbitrary: i j rule: rev_induct)
  case Nil
  then show ?case by (simp add: newSet_def)
next
  case (snoc x xs)
  show ?case
  proof (cases "x \<in> set xs")
    case True
    then have same: "newSet (xs @ [x]) = newSet xs"
      by (simp add: newSet_snoc setAdd_def set_newSet)
    with snoc.prems have "j < length (newSet xs)" by simp
    then have "newSet xs ! i \<in> set xs" "newSet xs ! j \<in> set xs"
      using snoc.prems(1) set_newSet [of xs] nth_mem [of _ "newSet xs"] by auto
    with snoc.IH [OF snoc.prems(1) \<open>j < length (newSet xs)\<close>] same show ?thesis
      by (simp add: arrayIndexOf_append_mem)
  next
    case False
    then have ext: "newSet (xs @ [x]) = newSet xs @ [x]"
      by (simp add: newSet_snoc setAdd_def set_newSet)
    show ?thesis
    proof (cases "j < length (newSet xs)")
      case True
      then have "newSet xs ! i \<in> set xs" "newSet xs ! j \<in> set xs"
        using snoc.prems(1) set_newSet [of xs] nth_mem [of _ "newSet xs"] by auto
      with snoc.IH [OF snoc.prems(1) True] ext True snoc.prems(1) show ?thesis
        by (simp add: arrayIndexOf_append_mem nth_append)
    next
      case False
      with snoc.prems ext have j: "j = length (newSet xs)" by simp
      with snoc.prems(1) have "newSet xs ! i \<in> set xs"
        using set_newSet [of xs] nth_mem [of i "newSet xs"] by auto
      then have "arrayIndexOf (xs @ [x]) (newSet xs ! i) < int (length xs)"
        by (simp add: arrayIndexOf_append_mem arrayIndexOf_bounds)
      with j ext snoc.prems(1) \<open>x \<notin> set xs\<close> show ?thesis
        by (simp add: nth_append arrayIndexOf_snoc_new)
    qed
  qed
qed

subsection \<open>Evaluation of the resolver\<close>

lemmas resolver_defs =
  extractFiles_def collectPositionedFiles_def initialPositionedFiles_def flatFiles_def
  mainAssets_def currentProjectChunks_def filesFromChunks_def hasExtension_def endsWith_def
  optStringIndexOf_def optArrayIndexOf_def startsWith_def prependForwardSlash_def newSet_def
  setAdd_def stringStep_def numberStep_def moduleStep_def pushEachChunk_def moduleChunks_def
  reasonModuleChunks_def canonicalWebpackId_def replaceDotSlash_def trimUnderscores_def
  Let_def

lemma flatFiles_initial:
  "flatFiles (initialPositionedFiles pathname chunksMap ext)
     = filter (\<lambda>file. hasExtension pathname file ext) (mainAssets chunksMap)
       @ filesFromChunks pathname (currentProjectChunks chunksMap) ext"
  by (simp add: flatFiles_def initialPositionedFiles_def Let_def)

subsection \<open>Leading and trailing underscores\<close>

lemma trimUnderscores_parts:
  "\<exists>pre post. t = pre @ trimUnderscores t @ post
     \<and> set pre \<subseteq> {CHR ''_''} \<and> set post \<subseteq> {CHR ''_''}"
proof -
  let ?u = "\<lambda>c. c = CHR ''_''"
  let ?m = "dropWhile ?u t"
  have 1: "t = takeWhile ?u t @ ?m" by simp
  have 2: "rev ?m = takeWhile ?u (rev ?m) @ dropWhile ?u (rev ?m)" by simp
  then have "?m = rev (dropWhile ?u (rev ?m)) @ rev (takeWhile ?u (rev ?m))"
    by (metis rev_append rev_rev_ident)
  then have "?m = trimUnderscores t @ rev (takeWhile ?u (rev ?m))"
    by (simp add: trimUnderscores_def)
  with 1 have "t = takeWhile ?u t @ trimUnderscores t @ rev (takeWhile ?u (rev ?m))"
    by simp
  moreover have "set (takeWhile ?u t) \<subseteq> {CHR ''_''}"
    by (auto dest: set_takeWhileD)
  moreover have "set (rev (takeWhile ?u (rev ?m))) \<subseteq> {CHR ''_''}"
    by (auto dest: set_takeWhileD)
  ultimately show ?thesis by blast
qed

lemma startsWith_single: "startsWith s [c] \<longleftrightarrow> s \<noteq> [] \<and> hd s = c"
  by (cases s) (simp_all add: startsWith_def)

lemma endsWith_single: "endsWith s [c] \<longleftrightarrow> s \<noteq> [] \<and> last s = c"
  by (cases s rule: rev_cases) (simp_all add: endsWith_def)

lemma trimUnderscores_ends:
  "\<not> startsWith (trimUnderscores t) ''_'' \<and> \<not> endsWith (trimUnderscores t) ''_''"
proof -
  define u where "u = (\<lambda>c. c = CHR ''_'')"
  define t1 where "t1 = dropWhile u t"
  define r where "r = dropWhile u (rev t1)"
  have res: "trimUnderscores t = rev r"
    by (simp add: trimUnderscores_def r_def t1_def u_def)
  have hd_r: "r \<noteq> [] \<Longrightarrow> \<not> u (hd r)"
    unfolding r_def by (rule hd_dropWhile)
  have hd_t1: "t1 \<noteq> [] \<Longrightarrow> \<not> u (hd t1)"
    unfolding t1_def by (rule hd_dropWhile)
  have last_r: "r \<noteq> [] \<Longrightarrow> \<not> u (last r)"
  proof -
    assume ne: "r \<noteq> []"
    have "rev t1 = takeWhile u (rev t1) @ r"
      unfolding r_def by simp
    with ne have "last (rev t1) = last r"
      by (metis last_appendR)
    moreover from ne have "t1 \<noteq> []"
      unfolding r_def by auto
    ultimately show ?thesis
      using hd_t1 by (simp add: last_rev)
  qed
  have a: "\<not> startsWith (rev r) ''_''"
  proof (cases "r = []")
    case True
    then show ?thesis by (simp add: startsWith_single)
  next
    case False
    with last_r have "last r \<noteq> CHR ''_''" by (simp add: u_def)
    with False show ?thesis by (simp add: startsWith_single hd_rev)
  qed
  have b: "\<not> endsWith (rev r) ''_''"
  proof (cases "r = []")
    case True
    then show ?thesis by (simp add: endsWith_single)
  next
    case False
    with hd_r have "hd r \<noteq> CHR ''_''" by (simp add: u_def)
    with False show ?thesis by (simp add: endsWith_single last_rev)
  qed
  from a b res show ?thesis by simp
qed

subsection \<open>indexOf on strings\<close>

lemma startsWith_iff: "startsWith s t \<longleftrightarrow> (\<exists>post. s = t @ post)"
proof
  assume "startsWith s t"
  then have "s = t @ drop (length t) s"
    by (metis append_take_drop_id startsWith_def)
  then show "\<exists>post. s = t @ post" ..
next
  assume "\<exists>post. s = t @ post"
  then show "startsWith s t" by (auto simp: startsWith_def)
qed

lemma stringIndexOf_ge: "- 1 \<le> stringIndexOf s t"
  by (induction s) (simp_all add: Let_def)

lemma stringIndexOf_iff: "stringIndexOf s t \<noteq> - 1 \<longleftrightarrow> (\<exists>pre post. s = pre @ t @ post)"
proof (induction s)
  case Nil
  show ?case by simp
next
  case (Cons c cs)
  show ?case
  proof (cases "startsWith (c # cs) t")
    case True
    then obtain post where "c # cs = [] @ t @ post"
      by (auto simp: startsWith_iff)
    then have "\<exists>pre post. c # cs = pre @ t @ post" by blast
    with True show ?thesis by simp
  next
    case False
    have "stringIndexOf (c # cs) t \<noteq> - 1 \<longleftrightarrow> stringIndexOf cs t \<noteq> - 1"
      using False stringIndexOf_ge [of cs t] by (simp add: Let_def)
    also have "\<dots> \<longleftrightarrow> (\<exists>pre post. cs = pre @ t @ post)" by (rule Cons.IH)
    also have "\<dots> \<longleftrightarrow> (\<exists>pre post. c # cs = pre @ t @ post)"
    proof
      assume "\<exists>pre post. cs = pre @ t @ post"
      then obtain pre post where "cs = pre @ t @ post" by blast
      then have "c # cs = (c # pre) @ t @ post" by simp
      then show "\<exists>pre post. c # cs = pre @ t @ post" by blast
    next
      assume "\<exists>pre post. c # cs = pre @ t @ post"
      then obtain pre post where e: "c # cs = pre @ t @ post" by blast
      show "\<exists>pre post. cs = pre @ t @ post"
      proof (cases pre)
        case Nil
        with e have "startsWith (c # cs) t" by (auto simp: startsWith_iff)
        with False show ?thesis by simp
      next
        case (Cons a pre')
        with e have "cs = pre' @ t @ post" by simp
        then show ?thesis by blast
      qed
    qed
    finally show ?thesis .
  qed
qed

lemma stringIndexOf_longer: "length s < length t \<Longrightarrow> stringIndexOf s t = - 1"
proof (induction s)
  case Nil
  then have "t \<noteq> []" by auto
  then show ?case by simp
next
  case (Cons c cs)
  have "\<not> startsWith (c # cs) t"
  proof
    assume "startsWith (c # cs) t"
    then have "take (length t) (c # cs) = t" by (simp only: startsWith_def)
    then have "length (take (length t) (c # cs)) = length t" by (simp only:)
    with Cons.prems show False by simp
  qed
  moreover from Cons have "stringIndexOf cs t = - 1" by simp
  ultimately show ?case by simp
qed

lemma moduleChunks_iff:
  "chunk \<in> set (moduleChunks m chunksMap)
     \<longleftrightarrow> chunk \<in> set (chunks chunksMap)
         \<and> (case reasonsStr chunk of
               None \<Rightarrow> True
             | Some s \<Rightarrow> \<exists>pre post. s = pre @ ''||'' @ m @ ''||'' @ post)"
  using stringIndexOf_iff [of _ "''||'' @ m @ ''||''"]
  by (auto simp: moduleChunks_def optStringIndexOf_def split: option.splits)

subsection \<open>Groups are only appended\<close>

lemma addById_extends: "\<exists>ys. fst (addById pn w cm pf ext ea) = pf @ ys"
proof -
  have "take (length pf) (fst (addById pn w cm pf ext ea)) = pf"
    using addById_forEachChild_once(1) [of cm pf ea pn w ext]
    by (simp add: addsOncePerChunk_def)
  then have "fst (addById pn w cm pf ext ea)
      = pf @ drop (length pf) (fst (addById pn w cm pf ext ea))"
    by (metis append_take_drop_id)
  then show ?thesis ..
qed

lemma matchedRouteStep_extends:
  "\<exists>ys. fst (matchedRouteStep pn cm ext (pf, ea) r) = pf @ ys"
proof -
  have "\<exists>a. moduleStep pn cm ext r pf = pf @ a"
    by (auto simp: moduleStep_def pushEachChunk_def split: option.splits)
  then obtain a where a: "moduleStep pn cm ext r pf = pf @ a" ..
  have "\<exists>b. numberStep pn cm ext r (pf @ a) = (pf @ a) @ b"
    by (auto simp: numberStep_def pushEachChunk_def split: option.splits WebpackId.splits)
  then obtain b where b: "numberStep pn cm ext r (pf @ a) = (pf @ a) @ b" ..
  have "\<exists>c. fst (stringStep pn cm ext r ((pf @ a) @ b) ea) = ((pf @ a) @ b) @ c"
    using addById_extends [of pn _ cm "(pf @ a) @ b" ext ea]
    by (simp add: stringStep_def split: option.splits WebpackId.splits)
  then obtain c where "fst (stringStep pn cm ext r ((pf @ a) @ b) ea) = pf @ (a @ b @ c)"
    by auto
  with a b show ?thesis by auto
qed

lemma foldl_matchedRouteStep_extends:
  "\<exists>ys. fst (foldl (matchedRouteStep pn cm ext) (pf, ea) rs) = pf @ ys"
proof (induction rs arbitrary: pf ea)
  case Nil
  show ?case by simp
next
  case (Cons r rs)
  obtain pf1 ea1 where s: "matchedRouteStep pn cm ext (pf, ea) r = (pf1, ea1)"
    by (cases "matchedRouteStep pn cm ext (pf, ea) r")
  with matchedRouteStep_extends [of pn cm ext pf ea r] obtain a where a: "pf1 = pf @ a"
    by auto
  from Cons.IH [of pf1 ea1] obtain b
    where "fst (foldl (matchedRouteStep pn cm ext) (pf1, ea1) rs) = pf1 @ b" by blast
  with s a show ?case by simp
qed

lemma initial_files_collected:
  "set (flatFiles (initialPositionedFiles pn cm ext))
     \<subseteq> set (flatFiles (collectPositionedFiles pn rs cm ext))"
proof -
  obtain ys where "collectPositionedFiles pn rs cm ext = initialPositionedFiles pn cm ext @ ys"
    unfolding collectPositionedFiles_def
    using foldl_matchedRouteStep_extends [of pn cm ext "initialPositionedFiles pn cm ext" "{}" rs]
    by blast
  then show ?thesis by (simp add: flatFiles_def)
qed

lemma set_extractFiles:
  "set (extractFiles pn (Some rs) cm ext)
     = prependForwardSlash ` set (flatFiles (collectPositionedFiles pn rs cm ext))"
  by (simp add: extractFiles_def set_newSet)

subsection \<open>Normal forms that differ\<close>

lemma prependForwardSlash_inj_on:
  assumes "\<forall>file \<in> A. \<not> startsWith file ''/''"
  shows "inj_on prependForwardSlash A"
proof (rule inj_onI)
  fix f g
  assume f: "f \<in> A" and g: "g \<in> A" and e: "prependForwardSlash f = prependForwardSlash g"
  from assms f g have nf: "\<not> startsWith f ''/''" and ng: "\<not> startsWith g ''/''" by auto
  show "f = g"
  proof (cases "startsWith f ''http''")
    case True
    note tf = this
    show ?thesis
    proof (cases "startsWith g ''http''")
      case True
      with tf e show ?thesis by (simp add: prependForwardSlash_def)
    next
      case False
      with tf e ng have "f = ''/'' @ g" by (simp add: prependForwardSlash_def)
      with nf show ?thesis by (simp add: startsWith_def)
    qed
  next
    case False
    note ff = this
    show ?thesis
    proof (cases "startsWith g ''http''")
      case True
      with ff e nf have "g = ''/'' @ f" by (simp add: prependForwardSlash_def)
      with ng show ?thesis by (simp add: startsWith_def)
    next
      case False
      with ff e nf ng show ?thesis by (simp add: prependForwardSlash_def)
    qed
  qed
qed

subsection \<open>Promise.all and the cache\<close>

lemma promiseAll_rejected: "Inl e \<in> set ps \<Longrightarrow> promiseAll ps = Inl CssFileNotFound"
proof (induction ps rule: promiseAll.induct)
  case 1
  then show ?case by simp
next
  case (2 e' ps)
  show ?case by (cases e') simp
next
  case (3 v ps)
  then show ?case by simp
qed

lemma promiseAll_fulfilled:
  "\<forall>p \<in> set ps. \<exists>v. p = Inr v \<Longrightarrow> promiseAll ps = Inr (map projr ps)"
  by (induction ps rule: promiseAll.induct) auto

lemma foldl_cacheSet:
  "foldl (cacheSet disk cssContentMap) cache cssFiles other
     = (if other \<in> set cssFiles \<and> cssContentMap other = None \<and> disk other \<noteq> None
        then disk other else cache other)"
proof (induction cssFiles arbitrary: cache)
  case Nil
  show ?case by simp
next
  case (Cons f fs)
  show ?case
    unfolding foldl_Cons Cons.IH
    by (auto simp: cacheSet_def getCssFileContent_def split: option.splits)
qed

lemma all_styles_found:
  assumes "\<forall>f \<in> set (extractStyles pathname matchedRoutes chunksMap).
             cssContentMap f \<noteq> None \<or> disk f \<noteq> None"
  shows "fst (extractStylesWithContent pathname disk cssContentMap matchedRoutes chunksMap)
           = Inr (map (\<lambda>f. \<lparr>href = f,
                             content = (case cssContentMap f of Some cached \<Rightarrow> cached
                                        | None \<Rightarrow> the (disk f))\<rparr>)
                    (extractStyles pathname matchedRoutes chunksMap))"
proof -
  let ?fs = "extractStyles pathname matchedRoutes chunksMap"
  have each: "\<forall>f \<in> set ?fs. styleCallback disk cssContentMap f
      = Inr \<lparr>href = f, content = (case cssContentMap f of Some cached \<Rightarrow> cached
                                   | None \<Rightarrow> the (disk f))\<rparr>"
    using assms
    by (auto simp: styleCallback_def getCssFileContent_def split: option.splits)
  then have "\<forall>p \<in> set (map (styleCallback disk cssContentMap) ?fs). \<exists>v. p = Inr v"
    by auto
  then have "promiseAll (map (styleCallback disk cssContentMap) ?fs)
      = Inr (map projr (map (styleCallback disk cssContentMap) ?fs))"
    by (rule promiseAll_fulfilled)
  also have "map projr (map (styleCallback disk cssContentMap) ?fs)
      = map (\<lambda>f. \<lparr>href = f, content = (case cssContentMap f of Some cached \<Rightarrow> cached
                                        | None \<Rightarrow> the (disk f))\<rparr>) ?fs"
    using each by simp
  finally show ?thesis by (simp add: extractStylesWithContent_def Let_def)
qed

lemma styles_files:
  "extractStyles plainPathname (Some []) styles_map = [''/a.css'', ''/b.css'']"
  by (simp add: extractStyles_def resolver_defs styles_map_def styles_chunk_def
      plainPathname_def)

subsection \<open>The ids of a map\<close>

lemma length_chunkIds: "length (chunkIds cm) \<le> length (chunks cm)"
  by (simp add: chunkIds_def List.map_filter_def)

section \<open>The claims\<close>

text \<open>
  C1 (as amended). In scenario B the route \<^verbatim>\<open>{webpack: "home.module"}\<close> resolves with
  \<^verbatim>\<open>".css"\<close> to \<^verbatim>\<open>["/a.css", "/b.css"]\<close>. The traversal from
  \<^verbatim>\<open>"home_module"\<close> pushes \<^verbatim>\<open>a.css\<close> alone, as it goes from an id to its children
  and not to its parents; \<^verbatim>\<open>/b.css\<close> is in the output all the same, because both
  chunks have the \<^verbatim>\<open>reasonsStr\<close> \<^verbatim>\<open>""\<close> and so both are in the core group.
\<close>

theorem scenarioB_core_group:
  assumes "pathname ''a.css'' = Some ''a.css''"
    and "pathname ''b.css'' = Some ''b.css''"
    and "chunks chunksMap = [scenarioB_A, scenarioB_B]"
    and "mainAssets chunksMap = []"
  shows "extractFiles pathname (Some [scenarioB_route]) chunksMap ''.css''
           = [''/a.css'', ''/b.css'']
    \<and> currentProjectChunks chunksMap = [scenarioB_A, scenarioB_B]
    \<and> addById pathname (Str (canonicalWebpackId ''home.module'')) chunksMap [] ''.css'' {}
        = ([\<lparr>files_p = [''a.css'']\<rparr>], {Str ''home_module''})"
proof -
  have core: "currentProjectChunks chunksMap = [scenarioB_A, scenarioB_B]"
    using assms(3)
    by (simp add: currentProjectChunks_def optStringIndexOf_def scenarioB_A_def
        scenarioB_B_def)
  have traversal: "addById pathname (Str (canonicalWebpackId ''home.module'')) chunksMap pf
      ''.css'' {} = (pf @ [\<lparr>files_p = [''a.css'']\<rparr>], {Str ''home_module''})" for pf
    using assms(1,3)
    by (simp add: addById.simps canonicalWebpackId_def replaceDotSlash_def
        trimUnderscores_def filesFromChunks_def hasExtension_def endsWith_def
        scenarioB_A_def scenarioB_B_def)
  have "extractFiles pathname (Some [scenarioB_route]) chunksMap ''.css''
           = [''/a.css'', ''/b.css'']"
    using assms(1,2,4)
    by (simp add: extractFiles_def collectPositionedFiles_def initialPositionedFiles_def
        flatFiles_def core traversal filesFromChunks_def hasExtension_def endsWith_def
        stringStep_def numberStep_def moduleStep_def scenarioB_route_def scenarioB_A_def
        scenarioB_B_def newSet_def setAdd_def prependForwardSlash_def startsWith_def Let_def)
  with core traversal [of "[]"] show ?thesis by simp
qed

theorem scenarioB_core_group_witness:
  "extractFiles plainPathname (Some [scenarioB_route]) scenarioB_map ''.css''
     = [''/a.css'', ''/b.css'']
   \<and> fst (addById plainPathname (Str (canonicalWebpackId ''home.module'')) scenarioB_map []
            ''.css'' {}) = [\<lparr>files_p = [''a.css'']\<rparr>]"
proof -
  have a: "plainPathname ''a.css'' = Some ''a.css''"
    and b: "plainPathname ''b.css'' = Some ''b.css''"
    by (simp_all add: plainPathname_def)
  have c: "chunks scenarioB_map = [scenarioB_A, scenarioB_B]"
    and d: "mainAssets scenarioB_map = []"
    by (simp_all add: scenarioB_map_def mainAssets_def)
  from scenarioB_core_group [of plainPathname scenarioB_map, OF a b c d]
  show ?thesis by simp
qed

text \<open>
  C1 as the specification states it fails: the output of scenario B does include
  \<^verbatim>\<open>/b.css\<close>.
\<close>

theorem scenarioB_counterexample:
  "''/b.css'' \<in> set (extractFiles plainPathname (Some [scenarioB_route]) scenarioB_map ''.css'')"
  by (simp add: addById.simps resolver_defs scenarioB_map_def scenarioB_A_def scenarioB_B_def
      scenarioB_route_def plainPathname_def)

text \<open>
  C2. The module-name step searches \<^verbatim>\<open>reasonsStr\<close> for the name between two
  \<^verbatim>\<open>||\<close>. For the chunk whose reasons are \<^verbatim>\<open>Header\<close> and \<^verbatim>\<open>Footer\<close>,
  \<^verbatim>\<open>extractChunksMap\<close> stores \<^verbatim>\<open>"Header||Footer"\<close>, and a route with the module
  \<^verbatim>\<open>Header\<close> (or \<^verbatim>\<open>Footer\<close>) does not match it: the step pushes nothing and the
  resolver returns no file, although the name is one of the reasons in the list. The
  same holds for a name that is the only reason of a chunk. A name between two other
  reasons is found, and on the chunk with \<^verbatim>\<open>reasonsStr = "||Header||Footer||"\<close> the
  module \<^verbatim>\<open>Header\<close> matches and the module \<^verbatim>\<open>HeaderX\<close> does not.
\<close>

theorem module_name_at_list_end_unmatched:
  "reasonsStr headerFooter_chunk = Some ''Header||Footer''
   \<and> moduleChunks ''Header'' headerFooter_map = []
   \<and> moduleChunks ''Footer'' headerFooter_map = []
   \<and> moduleStep plainPathname headerFooter_map ''.js'' header_route [] = []
   \<and> extractFiles plainPathname (Some [header_route]) headerFooter_map ''.js'' = []
   \<and> optStringIndexOf (Some (joinReasons [m])) (''||'' @ m @ ''||'') = Some (- 1)
   \<and> optStringIndexOf (Some (joinReasons [''App'', ''Header'', ''Footer''])) ''||Header||''
       = Some 3
   \<and> moduleChunks ''Header'' scenarioD_map = [scenarioD_chunk]
   \<and> moduleChunks ''HeaderX'' scenarioD_map = []"
proof -
  have str: "reasonsStr headerFooter_chunk = Some ''Header||Footer''"
    by (simp add: headerFooter_chunk_def)
  have header: "moduleChunks ''Header'' headerFooter_map = []"
    by (simp add: moduleChunks_def headerFooter_map_def headerFooter_chunk_def
        optStringIndexOf_def startsWith_def)
  have footer: "moduleChunks ''Footer'' headerFooter_map = []"
    by (simp add: moduleChunks_def headerFooter_map_def headerFooter_chunk_def
        optStringIndexOf_def startsWith_def)
  have step: "moduleStep plainPathname headerFooter_map ''.js'' header_route [] = []"
    by (simp add: moduleStep_def pushEachChunk_def header header_route_def)
  have core: "currentProjectChunks headerFooter_map = []"
    by (simp add: currentProjectChunks_def headerFooter_map_def headerFooter_chunk_def
        optStringIndexOf_def startsWith_def)
  have main: "mainAssets headerFooter_map = []"
    by (simp add: mainAssets_def headerFooter_map_def)
  have out: "extractFiles plainPathname (Some [header_route]) headerFooter_map ''.js'' = []"
    by (simp add: extractFiles_def collectPositionedFiles_def initialPositionedFiles_def
        flatFiles_def main core filesFromChunks_def moduleStep_def numberStep_def
        stringStep_def pushEachChunk_def header header_route_def newSet_def Let_def)
  have only: "optStringIndexOf (Some (joinReasons [m])) (''||'' @ m @ ''||'') = Some (- 1)"
    by (simp add: optStringIndexOf_def stringIndexOf_longer)
  have middle: "optStringIndexOf (Some (joinReasons [''App'', ''Header'', ''Footer'']))
      ''||Header||'' = Some 3"
    by (simp add: optStringIndexOf_def startsWith_def)
  have d1: "moduleChunks ''Header'' scenarioD_map = [scenarioD_chunk]"
    by (simp add: moduleChunks_def scenarioD_map_def scenarioD_chunk_def optStringIndexOf_def
        startsWith_def)
  have d2: "moduleChunks ''HeaderX'' scenarioD_map = []"
    by (simp add: moduleChunks_def scenarioD_map_def scenarioD_chunk_def optStringIndexOf_def
        startsWith_def)
  from str header footer step out only middle d1 d2 show ?thesis by simp
qed

text \<open>
  C3 (as amended). For a route with a non-empty string \<^verbatim>\<open>webpack\<close> id the traversal
  starts at the canonical id, and the canonical id is made by replacing every \<^verbatim>\<open>.\<close>
  and every \<^verbatim>\<open>/\<close>, one character at a time and no other character, with an
  underscore, and then removing the underscores at the two ends: what is removed is
  underscores only, and the result neither begins nor ends with one. So
  \<^verbatim>\<open>"home.module"\<close> becomes \<^verbatim>\<open>"home_module"\<close>.
\<close>

theorem stringStep_canonical_id:
  assumes "webpack (route matchedRoute) = Some (Str s)" and "s \<noteq> []"
  shows "stringStep pathname chunksMap ext matchedRoute positionedFiles extractedAssets
           = addById pathname (Str (canonicalWebpackId s)) chunksMap positionedFiles ext
               extractedAssets
    \<and> replaceDotSlash s
        = map (\<lambda>c. if c = CHR ''.'' \<or> c = CHR ''/'' then CHR ''_'' else c) s
    \<and> (\<exists>pre post. replaceDotSlash s = pre @ canonicalWebpackId s @ post
          \<and> set pre \<subseteq> {CHR ''_''} \<and> set post \<subseteq> {CHR ''_''})
    \<and> \<not> startsWith (canonicalWebpackId s) ''_'' \<and> \<not> endsWith (canonicalWebpackId s) ''_''
    \<and> canonicalWebpackId ''home.module'' = ''home_module''"
proof -
  have "stringStep pathname chunksMap ext matchedRoute positionedFiles extractedAssets
           = addById pathname (Str (canonicalWebpackId s)) chunksMap positionedFiles ext
               extractedAssets"
    using assms by (simp add: stringStep_def)
  moreover have "canonicalWebpackId ''home.module'' = ''home_module''"
    by (simp add: canonicalWebpackId_def replaceDotSlash_def trimUnderscores_def)
  moreover note trimUnderscores_parts [of "replaceDotSlash s"]
    trimUnderscores_ends [of "replaceDotSlash s"]
  ultimately show ?thesis
    by (simp add: canonicalWebpackId_def replaceDotSlash_def)
qed

theorem stringStep_canonical_id_witness:
  "stringStep plainPathname scenarioB_map ''.css'' scenarioB_route [] {}
     = addById plainPathname (Str ''home_module'') scenarioB_map [] ''.css'' {}"
proof -
  have a: "webpack (route scenarioB_route) = Some (Str ''home.module'')"
    by (simp add: scenarioB_route_def)
  have b: "''home.module'' \<noteq> []" by simp
  from stringStep_canonical_id [OF a b, of plainPathname scenarioB_map "''.css''" "[]" "{}"]
  show ?thesis by simp
qed

text \<open>
  C3 as the specification states it fails: a run of two dots leaves two underscores,
  and a hyphen, which is not alphanumeric, is kept.
\<close>

theorem canonical_id_counterexample:
  "canonicalWebpackId ''a..b'' = ''a__b'' \<and> canonicalize_spec ''a..b'' = ''a_b''
   \<and> canonicalWebpackId ''a-b'' = ''a-b'' \<and> canonicalize_spec ''a-b'' = ''a_b''"
  by (simp add: canonicalWebpackId_def replaceDotSlash_def trimUnderscores_def
      canonicalize_spec_def isAlphanumeric_def)

text \<open>
  C4. Scenario C: the map holds the single chunk
  \<^verbatim>\<open>{id: 5, children: [5], files: ["c.js"]}\<close> and the route carries a string id that
  canonicalizes to \<^verbatim>\<open>"5"\<close>. Resolving with \<^verbatim>\<open>".js"\<close> terminates and returns
  \<^verbatim>\<open>["/c.js"]\<close>, so \<^verbatim>\<open>/c.js\<close> is in the output exactly once, whatever module the
  route names. The call of \<open>addById\<close> on the canonical id is in the domain of the
  recursion, and on the chunk's own id \<open>addById\<close> pushes its files once and does not
  follow the child link back to the chunk.
\<close>

theorem scenarioC_once:
  assumes "pathname ''c.js'' = Some ''c.js''"
    and "webpack (route matchedRoute) = Some (Str s)"
    and "canonicalWebpackId s = ''5''"
    and "chunks chunksMap = [scenarioC_chunk]"
    and "mainAssets chunksMap = []"
  shows "extractFiles pathname (Some [matchedRoute]) chunksMap ''.js'' = [''/c.js'']
    \<and> count_list (extractFiles pathname (Some [matchedRoute]) chunksMap ''.js'') ''/c.js'' = 1
    \<and> addById_forEachChild_dom
        (Inl (pathname, Str (canonicalWebpackId s), chunksMap, positionedFiles, ''.js'',
              extractedAssets))
    \<and> addById pathname (Num 5) chunksMap [] ''.js'' {} = ([\<lparr>files_p = [''c.js'']\<rparr>], {Num 5})"
proof -
  have "canonicalWebpackId [] = []"
    by (simp add: canonicalWebpackId_def replaceDotSlash_def trimUnderscores_def)
  with assms(3) have ne: "s \<noteq> []" by auto
  have out: "extractFiles pathname (Some [matchedRoute]) chunksMap ''.js'' = [''/c.js'']"
    using assms ne
    by (simp add: extractFiles_def collectPositionedFiles_def initialPositionedFiles_def
        flatFiles_def currentProjectChunks_def filesFromChunks_def
        hasExtension_def endsWith_def optStringIndexOf_def prependForwardSlash_def
        startsWith_def newSet_def setAdd_def stringStep_def numberStep_def moduleStep_def
        pushEachChunk_def moduleChunks_def addById.simps
        scenarioC_chunk_def Let_def split: option.splits)
  have self: "addById pathname (Num 5) chunksMap [] ''.js'' {}
      = ([\<lparr>files_p = [''c.js'']\<rparr>], {Num 5})"
    using assms(1,4)
    by (simp add: addById.simps filesFromChunks_def hasExtension_def endsWith_def
        scenarioC_chunk_def)
  from out self addById_forEachChild_total show ?thesis by simp
qed

theorem scenarioC_once_witness:
  "extractFiles plainPathname (Some [scenarioC_route]) scenarioC_map ''.js'' = [''/c.js'']
   \<and> count_list (extractFiles plainPathname (Some [scenarioC_route]) scenarioC_map ''.js'')
        ''/c.js'' = 1"
proof -
  have a: "plainPathname ''c.js'' = Some ''c.js''" by (simp add: plainPathname_def)
  have b: "webpack (route scenarioC_route) = Some (Str ''5'')"
    by (simp add: scenarioC_route_def)
  have c: "canonicalWebpackId ''5'' = ''5''"
    by (simp add: canonicalWebpackId_def replaceDotSlash_def trimUnderscores_def)
  have d: "chunks scenarioC_map = [scenarioC_chunk]"
    and e: "mainAssets scenarioC_map = []"
    by (simp_all add: scenarioC_map_def mainAssets_def)
  from scenarioC_once [of plainPathname scenarioC_route "''5''" scenarioC_map "[]" "{}",
      OF a b c d e]
  show ?thesis by simp
qed

text \<open>
  C5 (as amended). Duplicates are removed before the paths are normalized. When no two
  different collected paths have the same normal form, the output holds each path at
  most once, holds exactly the normal forms of the collected paths, and keeps them in
  the order of their first appearance across the groups.
\<close>

theorem extractFiles_first_seen:
  assumes "inj_on prependForwardSlash
             (set (flatFiles (collectPositionedFiles pathname routes chunksMap ext)))"
  shows "distinct (extractFiles pathname (Some routes) chunksMap ext)
    \<and> set (extractFiles pathname (Some routes) chunksMap ext)
        = set (map prependForwardSlash
                 (flatFiles (collectPositionedFiles pathname routes chunksMap ext)))
    \<and> (\<forall>i j. i < j \<and> j < length (extractFiles pathname (Some routes) chunksMap ext)
          \<longrightarrow> arrayIndexOf
                (map prependForwardSlash
                   (flatFiles (collectPositionedFiles pathname routes chunksMap ext)))
                (extractFiles pathname (Some routes) chunksMap ext ! i)
              < arrayIndexOf
                  (map prependForwardSlash
                     (flatFiles (collectPositionedFiles pathname routes chunksMap ext)))
                  (extractFiles pathname (Some routes) chunksMap ext ! j))"
proof -
  let ?raw = "flatFiles (collectPositionedFiles pathname routes chunksMap ext)"
  have out: "extractFiles pathname (Some routes) chunksMap ext
      = newSet (map prependForwardSlash ?raw)"
    using assms by (simp add: extractFiles_def map_newSet)
  show ?thesis
    unfolding out
    by (simp add: distinct_newSet set_newSet newSet_first_seen del: set_map)
qed

theorem extractFiles_first_seen_witness:
  "distinct (extractFiles plainPathname (Some [scenarioB_route]) scenarioB_map ''.css'')
   \<and> extractFiles plainPathname (Some [scenarioB_route]) scenarioB_map ''.css''
       = [''/a.css'', ''/b.css'']"
proof -
  have raw: "flatFiles (collectPositionedFiles plainPathname [scenarioB_route] scenarioB_map ''.css'')
      = [''a.css'', ''b.css'', ''a.css'']"
    by (simp add: addById.simps resolver_defs scenarioB_map_def scenarioB_A_def
        scenarioB_B_def scenarioB_route_def plainPathname_def)
  have "inj_on prependForwardSlash
          (set (flatFiles
             (collectPositionedFiles plainPathname [scenarioB_route] scenarioB_map ''.css'')))"
    unfolding raw by (rule prependForwardSlash_inj_on) (simp add: startsWith_def)
  from extractFiles_first_seen [OF this]
  have "distinct (extractFiles plainPathname (Some [scenarioB_route]) scenarioB_map ''.css'')"
    by blast
  moreover have "extractFiles plainPathname (Some [scenarioB_route]) scenarioB_map ''.css''
       = [''/a.css'', ''/b.css'']"
    by (simp add: extractFiles_def raw newSet_def setAdd_def prependForwardSlash_def
        startsWith_def)
  ultimately show ?thesis ..
qed

text \<open>
  C5 as the specification states it fails: a chunk that lists \<^verbatim>\<open>a.js\<close> and
  \<^verbatim>\<open>/a.js\<close> puts \<^verbatim>\<open>/a.js\<close> into the output twice.
\<close>

theorem extractFiles_duplicate_counterexample:
  "extractFiles plainPathname (Some []) twoSpellings_map ''.js'' = [''/a.js'', ''/a.js'']"
  by (simp add: resolver_defs twoSpellings_map_def twoSpellings_chunk_def plainPathname_def)

text \<open>
  C6 (as amended). When one resolved style path is not in the cache and has no file on
  disk, the whole call is rejected with the file-not-found error and returns no pair,
  also for the paths whose files exist. The content of those other files is read and
  stored in the cache all the same.
\<close>

theorem missing_style_rejects_whole_call:
  assumes "cssFile \<in> set (extractStyles pathname matchedRoutes chunksMap)"
    and "cssContentMap cssFile = None"
    and "disk cssFile = None"
  shows "fst (extractStylesWithContent pathname disk cssContentMap matchedRoutes chunksMap)
           = Inl CssFileNotFound
    \<and> (\<forall>other \<in> set (extractStyles pathname matchedRoutes chunksMap).
          cssContentMap other = None \<and> disk other \<noteq> None
          \<longrightarrow> snd (extractStylesWithContent pathname disk cssContentMap matchedRoutes chunksMap)
                other = disk other)"
proof -
  have "styleCallback disk cssContentMap cssFile = Inl CssFileNotFound"
    using assms(2,3) by (simp add: styleCallback_def getCssFileContent_def)
  with assms(1) have "Inl CssFileNotFound
      \<in> set (map (styleCallback disk cssContentMap)
               (extractStyles pathname matchedRoutes chunksMap))"
    by force
  then have "promiseAll (map (styleCallback disk cssContentMap)
                 (extractStyles pathname matchedRoutes chunksMap)) = Inl CssFileNotFound"
    by (rule promiseAll_rejected)
  then show ?thesis
    by (simp add: extractStylesWithContent_def foldl_cacheSet Let_def)
qed

theorem missing_style_rejects_whole_call_witness:
  "fst (extractStylesWithContent plainPathname styles_disk cssContentMap_new (Some []) styles_map)
     = Inl CssFileNotFound
   \<and> snd (extractStylesWithContent plainPathname styles_disk cssContentMap_new (Some [])
            styles_map) ''/a.css'' = Some ''body{}''"
proof -
  have a: "''/b.css'' \<in> set (extractStyles plainPathname (Some []) styles_map)"
    by (simp add: styles_files)
  have b: "cssContentMap_new ''/b.css'' = None" by (simp add: cssContentMap_new_def)
  have c: "styles_disk ''/b.css'' = None" by (simp add: styles_disk_def)
  from missing_style_rejects_whole_call
         [where disk = styles_disk and cssContentMap = cssContentMap_new, OF a b c]
  show ?thesis by (simp add: styles_files cssContentMap_new_def styles_disk_def)
qed

text \<open>
  C6 as the specification states it fails: \<^verbatim>\<open>/a.css\<close> exists and \<^verbatim>\<open>/b.css\<close>
  does not, and the call returns the error instead of a pair for \<^verbatim>\<open>/a.css\<close>.
\<close>

theorem missing_style_counterexample:
  "styles_disk ''/a.css'' = Some ''body{}''
   \<and> extractStyles plainPathname (Some []) styles_map = [''/a.css'', ''/b.css'']
   \<and> fst (extractStylesWithContent plainPathname styles_disk cssContentMap_new (Some [])
            styles_map) = Inl CssFileNotFound"
  by (simp add: extractStylesWithContent_def styles_files styleCallback_def
      getCssFileContent_def cssContentMap_new_def styles_disk_def Let_def)

text \<open>
  C7. Every call of \<open>addById\<close> terminates, whatever the \<^verbatim>\<open>children\<close> relation of
  the map is: the call is in the domain of the recursion, which is the set of the calls
  from which every chain of recursive calls is finite. The visited set only grows, and
  the call pushes exactly one group for each chunk id that it adds to the set, so no
  chunk is processed twice and at most one group per chunk of the map is pushed.
\<close>

theorem addById_terminates:
  "addById_forEachChild_dom
     (Inl (pathname, webpackId, chunksMap, positionedFiles, ext, extractedAssets))
   \<and> addsOncePerChunk chunksMap positionedFiles extractedAssets
       (addById pathname webpackId chunksMap positionedFiles ext extractedAssets)
   \<and> length (fst (addById pathname webpackId chunksMap positionedFiles ext extractedAssets))
       \<le> length positionedFiles + length (chunks chunksMap)"
proof -
  let ?r = "addById pathname webpackId chunksMap positionedFiles ext extractedAssets"
  have once: "addsOncePerChunk chunksMap positionedFiles extractedAssets ?r"
    by (rule addById_forEachChild_once)
  have "card ((snd ?r - extractedAssets) \<inter> set (chunkIds chunksMap))
      \<le> card (set (chunkIds chunksMap))"
    by (rule card_mono) auto
  also have "\<dots> \<le> length (chunkIds chunksMap)" by (rule card_length)
  also have "\<dots> \<le> length (chunks chunksMap)" by (rule length_chunkIds)
  finally have "length (fst ?r) \<le> length positionedFiles + length (chunks chunksMap)"
    using once by (simp add: addsOncePerChunk_def)
  with once addById_forEachChild_total show ?thesis by simp
qed

text \<open>
  C8. With no matched route the resolver still collects the main and the core group: the
  output is the normal form of the files of \<^verbatim>\<open>main\<close> followed by the files of the
  core chunks, without repetition. In scenario A, \<^verbatim>\<open>resolve([], map, ".js")\<close> is
  exactly \<^verbatim>\<open>["/main.js"]\<close>.
\<close>

theorem scenarioA_empty_routes:
  assumes "pathname ''main.js'' = Some ''main.js''"
    and "pathname ''main.css'' = Some ''main.css''"
  shows "extractFiles pathname (Some []) scenarioA_map ''.js'' = [''/main.js'']
    \<and> extractFiles pathname (Some []) chunksMap ext
        = map prependForwardSlash
            (newSet (filter (\<lambda>file. hasExtension pathname file ext) (mainAssets chunksMap)
                     @ filesFromChunks pathname (currentProjectChunks chunksMap) ext))"
proof
  show "extractFiles pathname (Some []) scenarioA_map ''.js'' = [''/main.js'']"
    using assms by (simp add: resolver_defs scenarioA_map_def scenarioA_chunk_def)
  show "extractFiles pathname (Some []) chunksMap ext
        = map prependForwardSlash
            (newSet (filter (\<lambda>file. hasExtension pathname file ext) (mainAssets chunksMap)
                     @ filesFromChunks pathname (currentProjectChunks chunksMap) ext))"
    by (simp add: extractFiles_def collectPositionedFiles_def flatFiles_initial)
qed

theorem scenarioA_empty_routes_witness:
  "plainPathname ''main.js'' = Some ''main.js'' \<and> plainPathname ''main.css'' = Some ''main.css''
   \<and> extractFiles plainPathname (Some []) scenarioA_map ''.js'' = [''/main.js'']"
proof -
  have a: "plainPathname ''main.js'' = Some ''main.js''"
    and b: "plainPathname ''main.css'' = Some ''main.css''"
    by (simp_all add: plainPathname_def)
  from scenarioA_empty_routes [OF a b, THEN conjunct1] a b show ?thesis by simp
qed

text \<open>
  C9. The path normalizer is idempotent: normalizing a normalized path returns the same
  value. A path beginning with \<^verbatim>\<open>http\<close> is returned unchanged, and any other result
  begins with \<^verbatim>\<open>/\<close>: it is the path itself when that already begins with \<^verbatim>\<open>/\<close>,
  and the path after one \<^verbatim>\<open>/\<close> otherwise.
\<close>

theorem prependForwardSlash_idempotent:
  "prependForwardSlash (prependForwardSlash p) = prependForwardSlash p
   \<and> (if startsWith p ''http'' then prependForwardSlash p = p
      else startsWith (prependForwardSlash p) ''/''
           \<and> (if startsWith p ''/'' then prependForwardSlash p = p
               else prependForwardSlash p = ''/'' @ p))"
  by (simp add: prependForwardSlash_def startsWith_def)

text \<open>
  C10. A chunk of the map whose \<^verbatim>\<open>reasonsStr\<close> is absent is one of the core chunks,
  so its files with the extension are in the core group and, in normal form, in the
  output of every resolution. The optional-chained \<^verbatim>\<open>indexOf\<close> is \<^verbatim>\<open>undefined\<close>
  on it, so it passes the module-name filter for every module name \<open>m\<close>, and the
  module-name step of a route with a non-empty module name pushes its files.
\<close>

theorem absent_reasonsStr_always_matches:
  assumes "chunk \<in> set (chunks chunksMap)" and "reasonsStr chunk = None"
  shows "chunk \<in> set (currentProjectChunks chunksMap)
    \<and> set (filesFromChunks pathname [chunk] ext)
        \<subseteq> set (filesFromChunks pathname (currentProjectChunks chunksMap) ext)
    \<and> prependForwardSlash ` set (filesFromChunks pathname [chunk] ext)
        \<subseteq> set (extractFiles pathname (Some routes) chunksMap ext)
    \<and> optStringIndexOf (reasonsStr chunk) (''||'' @ m @ ''||'') = None
    \<and> chunk \<in> set (moduleChunks m chunksMap)
    \<and> (module (route matchedRoute) = Some m \<and> m \<noteq> []
         \<longrightarrow> \<lparr>files_p = filesFromChunks pathname [chunk] ext\<rparr>
               \<in> set (moduleStep pathname chunksMap ext matchedRoute positionedFiles))"
proof -
  have core: "chunk \<in> set (currentProjectChunks chunksMap)"
    using assms by (simp add: currentProjectChunks_def optStringIndexOf_def)
  then have group: "set (filesFromChunks pathname [chunk] ext)
        \<subseteq> set (filesFromChunks pathname (currentProjectChunks chunksMap) ext)"
    by (auto simp: filesFromChunks_def)
  have undefined: "optStringIndexOf (reasonsStr chunk) (''||'' @ m @ ''||'') = None"
    using assms(2) by (simp add: optStringIndexOf_def)
  then have matched: "chunk \<in> set (moduleChunks m chunksMap)"
    using assms(1) by (simp add: moduleChunks_def)
  have "set (filesFromChunks pathname (currentProjectChunks chunksMap) ext)
      \<subseteq> set (flatFiles (initialPositionedFiles pathname chunksMap ext))"
    by (simp add: flatFiles_initial)
  with group initial_files_collected [of pathname chunksMap ext routes]
  have "set (filesFromChunks pathname [chunk] ext)
      \<subseteq> set (flatFiles (collectPositionedFiles pathname routes chunksMap ext))"
    by blast
  then have out: "prependForwardSlash ` set (filesFromChunks pathname [chunk] ext)
        \<subseteq> set (extractFiles pathname (Some routes) chunksMap ext)"
    unfolding set_extractFiles by (rule image_mono)
  have pushed: "module (route matchedRoute) = Some m \<and> m \<noteq> []
         \<longrightarrow> \<lparr>files_p = filesFromChunks pathname [chunk] ext\<rparr>
               \<in> set (moduleStep pathname chunksMap ext matchedRoute positionedFiles)"
    using matched by (auto simp: moduleStep_def pushEachChunk_def)
  from core group out undefined matched pushed show ?thesis by blast
qed

theorem absent_reasonsStr_always_matches_witness:
  "noReasons_chunk \<in> set (currentProjectChunks noReasons_map)
   \<and> ''/x.js'' \<in> set (extractFiles plainPathname (Some [header_route]) noReasons_map ''.js'')
   \<and> noReasons_chunk \<in> set (moduleChunks ''Anything'' noReasons_map)
   \<and> \<lparr>files_p = [''x.js'']\<rparr> \<in> set (moduleStep plainPathname noReasons_map ''.js'' header_route [])"
proof -
  have a: "noReasons_chunk \<in> set (chunks noReasons_map)" by (simp add: noReasons_map_def)
  have b: "reasonsStr noReasons_chunk = None" by (simp add: noReasons_chunk_def)
  have f: "filesFromChunks plainPathname [noReasons_chunk] ''.js'' = [''x.js'']"
    by (simp add: filesFromChunks_def hasExtension_def endsWith_def plainPathname_def
        noReasons_chunk_def)
  have h: "module (route header_route) = Some ''Header''" by (simp add: header_route_def)
  from absent_reasonsStr_always_matches
         [OF a b, of plainPathname "''.js''" "[header_route]" "''Anything''"]
       absent_reasonsStr_always_matches
         [OF a b, of plainPathname "''.js''" "[header_route]" "''Header''" header_route "[]"]
       f h
  show ?thesis by (simp add: prependForwardSlash_def startsWith_def)
qed

end
